theory Spec2Isabelle
  imports Main "HOL-Library.Sublist"
begin

section \<open>The cart's order validation: \<open>validateOrder\<close> of cart.rest.service.ts\<close>

text \<open>
  \<open>validateOrder\<close> is an express middleware. It asks the catalog service for every
  article of the cart (\<open>async.map\<close> over \<open>req.cart.articles\<close>), and in the final
  callback it resets \<open>req.validation\<close>, joins every cart line with the first
  result that carries its id, pushes an error or a warning for the line, and calls
  \<open>next()\<close>. The model passes the request explicitly: \<open>validateOrder\<close> takes the
  request it is called with and returns how the final callback ends, by \<open>next()\<close>
  or by an exception, together with the request as it is then.
\<close>

subsection \<open>Data\<close>

text \<open>
  \<open>ICartArticle\<close> and \<open>ICart\<close> come from cart.schema; the fields are those the
  service reads or writes. JavaScript numbers are modelled by \<open>int\<close>: quantities and
  stocks are whole numbers.
\<close>

record ICartArticle =
  articleId :: string
  quantity :: int

record ICart =
  userId :: string
  enabled :: bool
  articles :: "ICartArticle list"

record CartValidationItem =
  articleId :: string
  message :: string

record ICartValidation =
  errors :: "CartValidationItem list"
  warnings :: "CartValidationItem list"

text \<open>
  The interface \<open>Article\<close> of the service. The property \<open>_id\<close> is called
  \<open>art_id\<close> here. A property may be \<open>undefined\<close> (\<open>None\<close>): the object that
  replaces a rejected lookup is \<open>{ "_id": undefined }\<close>, which has no \<open>stock\<close>
  and no \<open>enabled\<close> either. The properties \<open>name\<close> and \<open>price\<close> are never read
  by \<open>validateOrder\<close> and are left out.
\<close>

record Article =
  art_id :: "string option"
  stock :: "int option"
  enabled :: "bool option"

text \<open>
  The request: \<open>req.user.token\<close>, \<open>req.cart\<close> and \<open>req.validation\<close>
  (\<open>IValidationResult\<close> extends \<open>ICartRequest\<close>).
\<close>

record IValidationResult =
  token :: string
  cart :: ICart
  validation :: ICartValidation

text \<open>
  The promise returned by \<open>restClient.get<any>\<close>, once settled: fulfilled with
  \<open>data.result\<close>, or rejected with an exception. The service casts
  \<open>data.result\<close> to \<open>Article\<close> without a check, and \<open>data.result\<close> need not be
  an object: the rest client fulfils the promise with the result \<open>null\<close> when the
  catalog answers 404, or with an empty body, or with a body that is not JSON. The
  result is \<open>None\<close> then. The type of the exception is left open: the handler never
  looks at it. The catalog, as the service sees it, is a function from the resource
  path and the \<open>Authorization\<close> header to the settled promise.
\<close>

datatype 'e settled = Fulfilled "Article option" | Rejected 'e

type_synonym 'e catalog = "string \<Rightarrow> string \<Rightarrow> 'e settled"

text \<open>
  The object built for every cart line by \<open>req.cart.articles.map\<close>; its
  \<open>result\<close> is \<open>undefined\<close> (\<open>None\<close>) when \<open>results.find\<close> finds nothing.
\<close>

record element =
  article :: ICartArticle
  result :: "Article option"

text \<open>
  The exception of reading a property of \<open>null\<close>, and the two ways in which the
  final callback ends.
\<close>

datatype js_error = TypeError

datatype completion = Next | Thrown js_error

subsection \<open>JavaScript operators at the types they are used at\<close>

text \<open>\<open>element._id == article.articleId\<close>: \<open>undefined\<close> equals no string.\<close>

definition js_eq :: "string option \<Rightarrow> string \<Rightarrow> bool" where
  "js_eq x s = (case x of None \<Rightarrow> False | Some t \<Rightarrow> t = s)"

text \<open>\<open>!x\<close> for a boolean or \<open>undefined\<close>: \<open>undefined\<close> is falsy.\<close>

definition js_not :: "bool option \<Rightarrow> bool" where
  "js_not x = (case x of None \<Rightarrow> True | Some b \<Rightarrow> \<not> b)"

text \<open>\<open>x < n\<close> for a number or \<open>undefined\<close>: \<open>undefined\<close> becomes NaN, and the
  comparison is false.\<close>

definition js_lt :: "int option \<Rightarrow> int \<Rightarrow> bool" where
  "js_lt x n = (case x of None \<Rightarrow> False | Some m \<Rightarrow> m < n)"

subsection \<open>The fan-out\<close>

text \<open>
  The iteratee of \<open>async.map\<close>: it hands \<open>data.result\<close> to the callback when the
  promise is fulfilled and \<open>{ "_id": undefined }\<close> when it is rejected. The first
  argument of the callback, the error, is \<open>undefined\<close> on both paths.
\<close>

definition iteratee :: "'e catalog \<Rightarrow> IValidationResult \<Rightarrow> ICartArticle \<Rightarrow> Article option" where
  "iteratee get req art =
     (case get (''/articles/'' @ ICartArticle.articleId art) (token req) of
        Fulfilled data_result \<Rightarrow> data_result
      | Rejected exception \<Rightarrow> Some \<lparr>art_id = None, stock = None, enabled = None\<rparr>)"

text \<open>
  \<open>async.map\<close> calls the final callback when every iteratee has called back, with the
  results in the order of the collection.
\<close>

definition async_map :: "('a \<Rightarrow> 'b) \<Rightarrow> 'a list \<Rightarrow> 'b list" where
  "async_map f coll = map f coll"

subsection \<open>The final callback\<close>

text \<open>
  \<open>results.find(element => element._id == article.articleId)\<close>: the results are
  visited in order up to the first one that carries the id. Reading \<open>_id\<close> of a
  result that is \<open>null\<close> throws.
\<close>

fun results_find :: "Article option list \<Rightarrow> string \<Rightarrow> js_error + Article option" where
  "results_find [] x = Inr None"
| "results_find (None # results) x = Inl TypeError"
| "results_find (Some element # results) x =
     (if js_eq (art_id element) x then Inr (Some element) else results_find results x)"

text \<open>The callback of \<open>req.cart.articles.map\<close>.\<close>

definition join :: "Article option list \<Rightarrow> ICartArticle \<Rightarrow> js_error + element" where
  "join results a =
     (case results_find results (ICartArticle.articleId a) of
        Inl err \<Rightarrow> Inl err
      | Inr r \<Rightarrow> Inr \<lparr>article = a, result = r\<rparr>)"

text \<open>\<open>Array.prototype.map\<close> with a callback that may throw: the first exception
  ends the loop.\<close>

fun array_map :: "('a \<Rightarrow> js_error + 'b) \<Rightarrow> 'a list \<Rightarrow> js_error + 'b list" where
  "array_map f [] = Inr []"
| "array_map f (x # xs) =
     (case f x of
        Inl err \<Rightarrow> Inl err
      | Inr y \<Rightarrow> (case array_map f xs of Inl err \<Rightarrow> Inl err | Inr ys \<Rightarrow> Inr (y # ys)))"

definition push_error :: "IValidationResult \<Rightarrow> CartValidationItem \<Rightarrow> IValidationResult" where
  "push_error req item =
     req\<lparr>validation := (validation req)\<lparr>errors := errors (validation req) @ [item]\<rparr>\<rparr>"

definition push_warning :: "IValidationResult \<Rightarrow> CartValidationItem \<Rightarrow> IValidationResult" where
  "push_warning req item =
     req\<lparr>validation := (validation req)\<lparr>warnings := warnings (validation req) @ [item]\<rparr>\<rparr>"

text \<open>
  The body of \<open>forEach\<close>. The second message has an \<open>a\<close> with an acute accent,
  which is the two bytes C3 A1 in the source file (UTF-8).
\<close>

definition visit :: "IValidationResult \<Rightarrow> element \<Rightarrow> IValidationResult" where
  "visit req el =
     (case result el of
        None \<Rightarrow>
          push_error req
            \<lparr>CartValidationItem.articleId = ICartArticle.articleId (article el),
             message = ''No se encuentra''\<rparr>
      | Some r \<Rightarrow>
          if js_not (Article.enabled r) then
            push_error req
              \<lparr>CartValidationItem.articleId = ICartArticle.articleId (article el),
               message = ''Articulo inv'' @ [CHR 0xC3, CHR 0xA1] @ ''lido''\<rparr>
          else if js_lt (stock r) (quantity (article el)) then
            push_warning req
              \<lparr>CartValidationItem.articleId = ICartArticle.articleId (article el),
               message = ''Insuficiente stock''\<rparr>
          else req)"

definition forEach :: "'a list \<Rightarrow> ('s \<Rightarrow> 'a \<Rightarrow> 's) \<Rightarrow> 's \<Rightarrow> 's" where
  "forEach xs body s = foldl body s xs"

text \<open>
  The final callback. The report is reset before the lines are joined, so an exception
  of \<open>results.find\<close> leaves the empty report in the request; \<open>next()\<close> is not
  called then.
\<close>

definition final_callback ::
  "Article option list \<Rightarrow> IValidationResult \<Rightarrow> completion \<times> IValidationResult" where
  "final_callback results req =
     (let req1 = req\<lparr>validation := \<lparr>errors = [], warnings = []\<rparr>\<rparr>
      in case array_map (join results) (articles (cart req1)) of
           Inl err \<Rightarrow> (Thrown err, req1)
         | Inr elements \<Rightarrow> (Next, forEach elements visit req1))"

definition validateOrder ::
  "'e catalog \<Rightarrow> IValidationResult \<Rightarrow> completion \<times> IValidationResult" where
  "validateOrder get req =
     final_callback (async_map (iteratee get req) (articles (cart req))) req"

subsection \<open>Notions used to state the properties\<close>

text \<open>The results that \<open>async.map\<close> hands to the final callback of a request.\<close>

definition results_of :: "'e catalog \<Rightarrow> IValidationResult \<Rightarrow> Article option list" where
  "results_of get req = async_map (iteratee get req) (articles (cart req))"

text \<open>The results that are objects, in order.\<close>

fun objects :: "Article option list \<Rightarrow> Article list" where
  "objects [] = []"
| "objects (None # results) = objects results"
| "objects (Some element # results) = element # objects results"

text \<open>
  A cart line together with the first of a list of objects whose \<open>_id\<close> is the id of
  the line: what the line is joined with when no exception is thrown.
\<close>

definition joined :: "Article list \<Rightarrow> ICartArticle \<Rightarrow> element" where
  "joined os a =
     \<lparr>article = a,
      result = List.find (\<lambda>element. art_id element = Some (ICartArticle.articleId a)) os\<rparr>"

text \<open>
  The outcome of a line (\<open>LineValidationOutcome\<close> of the specification): the record
  that is pushed for the line, if any, and onto which sequence.
\<close>

datatype LineValidationOutcome =
  is_Error: Error CartValidationItem | is_Warning: Warning CartValidationItem | is_Ok: Ok

definition outcome :: "element \<Rightarrow> LineValidationOutcome" where
  "outcome el =
     (case result el of
        None \<Rightarrow>
          Error \<lparr>CartValidationItem.articleId = ICartArticle.articleId (article el),
                 message = ''No se encuentra''\<rparr>
      | Some r \<Rightarrow>
          if Article.enabled r \<noteq> Some True then
            Error \<lparr>CartValidationItem.articleId = ICartArticle.articleId (article el),
                   message = ''Articulo inv'' @ [CHR 0xC3, CHR 0xA1] @ ''lido''\<rparr>
          else if (case stock r of None \<Rightarrow> False | Some m \<Rightarrow> m < quantity (article el)) then
            Warning \<lparr>CartValidationItem.articleId = ICartArticle.articleId (article el),
                     message = ''Insuficiente stock''\<rparr>
          else Ok)"

definition line_errors :: "element \<Rightarrow> CartValidationItem list" where
  "line_errors el = (case outcome el of Error item \<Rightarrow> [item] | Warning item \<Rightarrow> [] | Ok \<Rightarrow> [])"

definition line_warnings :: "element \<Rightarrow> CartValidationItem list" where
  "line_warnings el = (case outcome el of Error item \<Rightarrow> [] | Warning item \<Rightarrow> [item] | Ok \<Rightarrow> [])"

text \<open>The articles of the cart that carry a given id, and the records of a sequence
  that do.\<close>

definition lines_with :: "string \<Rightarrow> ICartArticle list \<Rightarrow> ICartArticle list" where
  "lines_with x arts = filter (\<lambda>b. ICartArticle.articleId b = x) arts"

definition items_with :: "string \<Rightarrow> CartValidationItem list \<Rightarrow> CartValidationItem list" where
  "items_with x items = filter (\<lambda>i. CartValidationItem.articleId i = x) items"

subsection \<open>Example requests\<close>

text \<open>
  The scenario of the specification, with two more lines: the catalog knows A
  (stock 10), C (stock 1), the disabled D (stock 0) and E (stock 4); every other lookup
  is rejected. The request still carries the report of an earlier validation.
\<close>

definition ex_catalog :: "unit catalog" where
  "ex_catalog path auth =
     (if path = ''/articles/A'' then
        Fulfilled (Some \<lparr>art_id = Some ''A'', stock = Some 10, enabled = Some True\<rparr>)
      else if path = ''/articles/C'' then
        Fulfilled (Some \<lparr>art_id = Some ''C'', stock = Some 1, enabled = Some True\<rparr>)
      else if path = ''/articles/D'' then
        Fulfilled (Some \<lparr>art_id = Some ''D'', stock = Some 0, enabled = Some False\<rparr>)
      else if path = ''/articles/E'' then
        Fulfilled (Some \<lparr>art_id = Some ''E'', stock = Some 4, enabled = Some True\<rparr>)
      else Rejected ())"

definition ex_req :: IValidationResult where
  "ex_req =
     \<lparr>token = ''bearer'',
      cart = \<lparr>userId = ''u1'', ICart.enabled = True,
              articles = [\<lparr>ICartArticle.articleId = ''A'', quantity = 2\<rparr>,
                          \<lparr>ICartArticle.articleId = ''B'', quantity = 1\<rparr>,
                          \<lparr>ICartArticle.articleId = ''C'', quantity = 5\<rparr>,
                          \<lparr>ICartArticle.articleId = ''D'', quantity = 3\<rparr>,
                          \<lparr>ICartArticle.articleId = ''E'', quantity = 4\<rparr>]\<rparr>,
      validation = \<lparr>errors = [\<lparr>articleId = ''Z'', message = ''old''\<rparr>], warnings = []\<rparr>\<rparr>"

definition ex_report :: ICartValidation where
  "ex_report =
     \<lparr>errors = [\<lparr>articleId = ''B'', message = ''No se encuentra''\<rparr>,
                \<lparr>articleId = ''D'', message = ''Articulo inv'' @ [CHR 0xC3, CHR 0xA1] @ ''lido''\<rparr>],
      warnings = [\<lparr>articleId = ''C'', message = ''Insuficiente stock''\<rparr>]\<rparr>"

text \<open>A request whose cart is empty.\<close>

definition empty_req :: IValidationResult where
  "empty_req =
     \<lparr>token = ''bearer'',
      cart = \<lparr>userId = ''u1'', ICart.enabled = True, articles = []\<rparr>,
      validation = \<lparr>errors = [\<lparr>articleId = ''Z'', message = ''old''\<rparr>], warnings = []\<rparr>\<rparr>"

text \<open>
  The scenario of the specification with the lookup of B answered by 404: the promise
  is fulfilled with the result \<open>null\<close>. The cart is the one of the specification; a
  second request has the line of B alone.
\<close>

definition null_catalog :: "unit catalog" where
  "null_catalog path auth =
     (if path = ''/articles/A'' then
        Fulfilled (Some \<lparr>art_id = Some ''A'', stock = Some 10, enabled = Some True\<rparr>)
      else if path = ''/articles/B'' then Fulfilled None
      else if path = ''/articles/C'' then
        Fulfilled (Some \<lparr>art_id = Some ''C'', stock = Some 1, enabled = Some True\<rparr>)
      else Rejected ())"

definition spec_req :: IValidationResult where
  "spec_req =
     \<lparr>token = ''bearer'',
      cart = \<lparr>userId = ''u1'', ICart.enabled = True,
              articles = [\<lparr>ICartArticle.articleId = ''A'', quantity = 2\<rparr>,
                          \<lparr>ICartArticle.articleId = ''B'', quantity = 1\<rparr>,
                          \<lparr>ICartArticle.articleId = ''C'', quantity = 5\<rparr>]\<rparr>,
      validation = \<lparr>errors = [], warnings = []\<rparr>\<rparr>"

definition single_req :: IValidationResult where
  "single_req =
     \<lparr>token = ''bearer'',
      cart = \<lparr>userId = ''u1'', ICart.enabled = True,
              articles = [\<lparr>ICartArticle.articleId = ''B'', quantity = 1\<rparr>]\<rparr>,
      validation = \<lparr>errors = [], warnings = []\<rparr>\<rparr>"

text \<open>
  A catalog whose answers to the lookups of X and of A both carry the id A: the
  first one disabled, the second one enabled with a stock of 10. The lookup of B is
  rejected and the lookup of C is answered with the snapshot of C.
\<close>

definition twin_catalog :: "unit catalog" where
  "twin_catalog path auth =
     (if path = ''/articles/C'' then
        Fulfilled (Some \<lparr>art_id = Some ''C'', stock = Some 100, enabled = Some True\<rparr>)
      else if path = ''/articles/X'' then
        Fulfilled (Some \<lparr>art_id = Some ''A'', stock = Some 0, enabled = Some False\<rparr>)
      else if path = ''/articles/A'' then
        Fulfilled (Some \<lparr>art_id = Some ''A'', stock = Some 10, enabled = Some True\<rparr>)
      else Rejected ())"

definition twin_req :: IValidationResult where
  "twin_req =
     \<lparr>token = ''bearer'',
      cart = \<lparr>userId = ''u1'', ICart.enabled = True,
              articles = [\<lparr>ICartArticle.articleId = ''B'', quantity = 1\<rparr>,
                          \<lparr>ICartArticle.articleId = ''C'', quantity = 1\<rparr>,
                          \<lparr>ICartArticle.articleId = ''X'', quantity = 1\<rparr>,
                          \<lparr>ICartArticle.articleId = ''A'', quantity = 20\<rparr>]\<rparr>,
      validation = \<lparr>errors = [], warnings = []\<rparr>\<rparr>"

text \<open>
  A catalog that answers the lookup of A with the snapshot of B, and rejects the
  lookup of B.
\<close>

definition clash_catalog :: "unit catalog" where
  "clash_catalog path auth =
     (if path = ''/articles/A'' then
        Fulfilled (Some \<lparr>art_id = Some ''B'', stock = Some 10, enabled = Some True\<rparr>)
      else Rejected ())"

definition clash_req :: IValidationResult where
  "clash_req =
     \<lparr>token = ''bearer'',
      cart = \<lparr>userId = ''u1'', ICart.enabled = True,
              articles = [\<lparr>ICartArticle.articleId = ''A'', quantity = 2\<rparr>,
                          \<lparr>ICartArticle.articleId = ''B'', quantity = 1\<rparr>]\<rparr>,
      validation = \<lparr>errors = [], warnings = []\<rparr>\<rparr>"

section \<open>Basic facts\<close>

subsection \<open>The loop of the final callback\<close>

lemma visit_outcome:
  "visit req el =
     req\<lparr>validation :=
       \<lparr>errors = errors (validation req) @ line_errors el,
        warnings = warnings (validation req) @ line_warnings el\<rparr>\<rparr>"
  by (simp add: visit_def outcome_def line_errors_def line_warnings_def push_error_def
      push_warning_def js_not_def js_lt_def split: option.splits)

lemma foldl_visit:
  "foldl visit req els =
     req\<lparr>validation :=
       \<lparr>errors = errors (validation req) @ concat (map line_errors els),
        warnings = warnings (validation req) @ concat (map line_warnings els)\<rparr>\<rparr>"
proof (induction els arbitrary: req)
  case Nil
  show ?case by simp
next
  case (Cons el els)
  have "foldl visit req (el # els) = foldl visit (visit req el) els"
    by simp
  also have "\<dots> = (visit req el)\<lparr>validation :=
       \<lparr>errors = errors (validation (visit req el)) @ concat (map line_errors els),
        warnings = warnings (validation (visit req el)) @ concat (map line_warnings els)\<rparr>\<rparr>"
    by (rule Cons.IH)
  also have "\<dots> = req\<lparr>validation :=
       \<lparr>errors = errors (validation req) @ concat (map line_errors (el # els)),
        warnings = warnings (validation req) @ concat (map line_warnings (el # els))\<rparr>\<rparr>"
    by (simp add: visit_outcome)
  finally show ?case .
qed

subsection \<open>Joining the lines\<close>

lemma results_find_objects:
  "results_find rs x = Inr r \<Longrightarrow>
     r = List.find (\<lambda>element. art_id element = Some x) (objects rs)"
proof (induction rs x rule: results_find.induct)
  case (1 x)
  then show ?case by simp
next
  case (2 results x)
  then show ?case by simp
next
  case (3 element results x)
  then show ?case
    by (cases "art_id element") (auto simp: js_eq_def split: if_splits)
qed

lemma results_find_no_null:
  "None \<notin> set rs \<Longrightarrow> \<exists>r. results_find rs x = Inr r"
proof (induction rs x rule: results_find.induct)
  case (1 x)
  show ?case by simp
next
  case (2 results x)
  then show ?case by simp
next
  case (3 element results x)
  then show ?case by simp
qed

lemma join_joined: "join rs a = Inr el \<Longrightarrow> el = joined (objects rs) a"
  by (auto simp: join_def joined_def split: sum.splits dest: results_find_objects)

lemma join_no_null: "None \<notin> set rs \<Longrightarrow> \<exists>el. join rs a = Inr el"
  using results_find_no_null [of rs "ICartArticle.articleId a"]
  by (auto simp: join_def)

lemma array_map_Inr:
  assumes "\<And>x y. f x = Inr y \<Longrightarrow> y = g x"
  shows "array_map f xs = Inr ys \<Longrightarrow> ys = map g xs"
proof (induction xs arbitrary: ys)
  case Nil
  then show ?case by simp
next
  case (Cons x xs)
  from Cons.prems obtain y ys' where y: "f x = Inr y" and ys': "array_map f xs = Inr ys'"
    and ys: "ys = y # ys'"
    by (auto split: sum.splits)
  from y have "y = g x" by (rule assms)
  moreover from ys' have "ys' = map g xs" by (rule Cons.IH)
  ultimately show ?case using ys by simp
qed

lemma array_map_total:
  "(\<And>x. x \<in> set xs \<Longrightarrow> \<exists>y. f x = Inr y) \<Longrightarrow> \<exists>ys. array_map f xs = Inr ys"
proof (induction xs)
  case Nil
  show ?case by simp
next
  case (Cons x xs)
  from Cons.prems [of x] obtain y where "f x = Inr y" by auto
  moreover from Cons.IH Cons.prems obtain ys where "array_map f xs = Inr ys" by auto
  ultimately show ?case by simp
qed

subsection \<open>The two ways in which \<open>validateOrder\<close> ends\<close>

lemma validateOrder_cases:
  "validateOrder get req = (Thrown TypeError, req\<lparr>validation := \<lparr>errors = [], warnings = []\<rparr>\<rparr>)
   \<or> validateOrder get req =
       (Next, req\<lparr>validation :=
          \<lparr>errors = concat (map (\<lambda>b. line_errors (joined (objects (results_of get req)) b))
                                 (articles (cart req))),
           warnings = concat (map (\<lambda>b. line_warnings (joined (objects (results_of get req)) b))
                                   (articles (cart req)))\<rparr>\<rparr>)"
proof (cases "array_map (join (results_of get req)) (articles (cart req))")
  case (Inl err)
  have "err = TypeError" by (cases err) simp
  with Inl show ?thesis
    by (simp add: validateOrder_def final_callback_def results_of_def)
next
  case (Inr els)
  then have "els = map (joined (objects (results_of get req))) (articles (cart req))"
    by (rule array_map_Inr [rotated]) (rule join_joined)
  with Inr show ?thesis
    by (simp add: validateOrder_def final_callback_def results_of_def forEach_def foldl_visit
        comp_def)
qed

lemma validateOrder_Next:
  assumes "fst (validateOrder get req) = Next"
  shows "snd (validateOrder get req) =
       req\<lparr>validation :=
          \<lparr>errors = concat (map (\<lambda>b. line_errors (joined (objects (results_of get req)) b))
                                 (articles (cart req))),
           warnings = concat (map (\<lambda>b. line_warnings (joined (objects (results_of get req)) b))
                                   (articles (cart req)))\<rparr>\<rparr>"
  using assms validateOrder_cases [of get req] by auto

lemma validateOrder_Thrown:
  assumes "fst (validateOrder get req) \<noteq> Next"
  shows "validateOrder get req =
           (Thrown TypeError, req\<lparr>validation := \<lparr>errors = [], warnings = []\<rparr>\<rparr>)"
  using assms validateOrder_cases [of get req] by auto

lemma results_of_no_null:
  assumes "\<forall>b \<in> set (articles (cart req)).
             get (''/articles/'' @ ICartArticle.articleId b) (token req) \<noteq> Fulfilled None"
  shows "None \<notin> set (results_of get req)"
  using assms by (auto simp: results_of_def async_map_def iteratee_def split: settled.splits)

lemma validateOrder_completes:
  assumes "\<forall>b \<in> set (articles (cart req)).
             get (''/articles/'' @ ICartArticle.articleId b) (token req) \<noteq> Fulfilled None"
  shows "fst (validateOrder get req) = Next"
proof -
  from assms have "None \<notin> set (results_of get req)"
    by (rule results_of_no_null)
  then have "\<exists>els. array_map (join (results_of get req)) (articles (cart req)) = Inr els"
    by (intro array_map_total join_no_null)
  then show ?thesis
    by (auto simp: validateOrder_def final_callback_def results_of_def)
qed

subsection \<open>The records of a line\<close>

lemma article_joined: "article (joined os b) = b"
  by (simp add: joined_def)

lemma lines_with_result:
  "b \<in> set (lines_with (ICartArticle.articleId a) arts) \<Longrightarrow>
     result (joined os b) = result (joined os a)"
  by (simp add: lines_with_def joined_def)

lemma lines_with_id:
  "b \<in> set (lines_with x arts) \<Longrightarrow> ICartArticle.articleId b = x"
  by (simp add: lines_with_def)



lemma line_errors_set:
  "e \<in> set (line_errors el) \<longleftrightarrow> outcome el = Error e"
  by (cases "outcome el") (auto simp: line_errors_def)

lemma line_warnings_set:
  "w \<in> set (line_warnings el) \<longleftrightarrow> outcome el = Warning w"
  by (cases "outcome el") (auto simp: line_warnings_def)

lemma line_errors_id:
  "i \<in> set (line_errors (joined os b)) \<Longrightarrow>
     CartValidationItem.articleId i = ICartArticle.articleId b"
  by (auto simp: line_errors_set outcome_def article_joined split: option.splits if_splits)

lemma line_warnings_id:
  "i \<in> set (line_warnings (joined os b)) \<Longrightarrow>
     CartValidationItem.articleId i = ICartArticle.articleId b"
  by (auto simp: line_warnings_set outcome_def article_joined split: option.splits if_splits)

lemma line_None:
  assumes "result (joined os b) = None"
  shows "line_errors (joined os b) =
           [\<lparr>CartValidationItem.articleId = ICartArticle.articleId b,
             message = ''No se encuentra''\<rparr>]"
    and "line_warnings (joined os b) = []"
  using assms by (simp_all add: line_errors_def line_warnings_def outcome_def article_joined)



subsection \<open>The records of the report that carry a given id\<close>

lemma items_with_concat:
  assumes "\<And>b i. i \<in> set (f b) \<Longrightarrow> CartValidationItem.articleId i = ICartArticle.articleId b"
  shows "items_with x (concat (map f arts)) = concat (map f (lines_with x arts))"
proof (induction arts)
  case Nil
  show ?case by (simp add: items_with_def lines_with_def)
next
  case (Cons b arts)
  have "filter (\<lambda>i. CartValidationItem.articleId i = x) (f b) =
          (if ICartArticle.articleId b = x then f b else [])"
    using assms [of _ b] by (auto simp: filter_empty_conv intro: filter_True)
  with Cons.IH show ?case
    by (simp add: items_with_def lines_with_def)
qed

lemma concat_map_single:
  "(\<And>b. b \<in> set ys \<Longrightarrow> f b = [c]) \<Longrightarrow> concat (map f ys) = replicate (length ys) c"
  by (induction ys) simp_all

lemma concat_map_none:
  "(\<And>b. b \<in> set ys \<Longrightarrow> f b = []) \<Longrightarrow> concat (map f ys) = []"
  by (induction ys) simp_all

lemma concat_map_if:
  "concat (map (\<lambda>b. if P b then [g b] else []) ys) = map g (filter P ys)"
  by (induction ys) simp_all

lemma errors_with:
  assumes "fst (validateOrder get req) = Next"
  shows "items_with x (errors (validation (snd (validateOrder get req)))) =
     concat (map (\<lambda>b. line_errors (joined (objects (results_of get req)) b))
                 (lines_with x (articles (cart req))))"
  by (simp add: validateOrder_Next [OF assms] items_with_concat line_errors_id)

lemma warnings_with:
  assumes "fst (validateOrder get req) = Next"
  shows "items_with x (warnings (validation (snd (validateOrder get req)))) =
     concat (map (\<lambda>b. line_warnings (joined (objects (results_of get req)) b))
                 (lines_with x (articles (cart req))))"
  by (simp add: validateOrder_Next [OF assms] items_with_concat line_warnings_id)

lemma report_not_found:
  assumes "fst (validateOrder get req) = Next"
    and "result (joined (objects (results_of get req)) a) = None"
  shows "items_with (ICartArticle.articleId a) (errors (validation (snd (validateOrder get req)))) =
           replicate (length (lines_with (ICartArticle.articleId a) (articles (cart req))))
             \<lparr>CartValidationItem.articleId = ICartArticle.articleId a,
              message = ''No se encuentra''\<rparr>"
    and "items_with (ICartArticle.articleId a) (warnings (validation (snd (validateOrder get req)))) = []"
proof -
  let ?x = "ICartArticle.articleId a"
  let ?ls = "lines_with ?x (articles (cart req))"
  let ?os = "objects (results_of get req)"
  have none: "result (joined ?os b) = None" if "b \<in> set ?ls" for b
    using that assms(2) by (simp add: lines_with_result)
  have e: "line_errors (joined ?os b) =
             [\<lparr>CartValidationItem.articleId = ?x, message = ''No se encuentra''\<rparr>]"
    if "b \<in> set ?ls" for b
    using line_None(1) [OF none [OF that]] lines_with_id [OF that] by simp
  have w: "line_warnings (joined ?os b) = []" if "b \<in> set ?ls" for b
    using line_None(2) [OF none [OF that]] .
  show "items_with ?x (errors (validation (snd (validateOrder get req)))) =
          replicate (length ?ls) \<lparr>CartValidationItem.articleId = ?x, message = ''No se encuentra''\<rparr>"
    unfolding errors_with [OF assms(1)] by (rule concat_map_single) (rule e)
  show "items_with ?x (warnings (validation (snd (validateOrder get req)))) = []"
    unfolding warnings_with [OF assms(1)] by (rule concat_map_none) (rule w)
qed



subsection \<open>The first answer that carries an id\<close>

lemma objects_map:
  "(\<And>x. x \<in> set xs \<Longrightarrow> f x \<noteq> None) \<Longrightarrow> objects (map f xs) = map (\<lambda>x. the (f x)) xs"
proof (induction xs)
  case Nil
  show ?case by simp
next
  case (Cons x xs)
  from Cons.prems [of x] obtain el where "f x = Some el" by auto
  with Cons show ?case by simp
qed



lemma no_answer:
  assumes nonull: "\<forall>b \<in> set (articles (cart req)).
             get (''/articles/'' @ ICartArticle.articleId b) (token req) \<noteq> Fulfilled None"
    and none: "\<forall>b \<in> set (articles (cart req)). \<forall>el.
             get (''/articles/'' @ ICartArticle.articleId b) (token req) = Fulfilled (Some el) \<longrightarrow>
             art_id el \<noteq> Some x"
  shows "List.find (\<lambda>element. art_id element = Some x) (objects (results_of get req)) = None"
proof -
  let ?arts = "articles (cart req)"
  have "iteratee get req b \<noteq> None" if "b \<in> set ?arts" for b
    using that nonull by (auto simp: iteratee_def split: settled.splits)
  then have os: "objects (results_of get req) = map (\<lambda>b. the (iteratee get req b)) ?arts"
    unfolding results_of_def async_map_def by (rule objects_map)
  have "art_id (the (iteratee get req b)) \<noteq> Some x" if "b \<in> set ?arts" for b
  proof (cases "get (''/articles/'' @ ICartArticle.articleId b) (token req)")
    case (Fulfilled r)
    with nonull that obtain el where "r = Some el" by (cases r) auto
    with Fulfilled none that show ?thesis by (simp add: iteratee_def)
  next
    case (Rejected e)
    then show ?thesis by (simp add: iteratee_def)
  qed
  then show ?thesis
    unfolding os by (auto simp: find_None_iff)
qed

subsection \<open>Running the examples\<close>

lemmas run_defs = validateOrder_def final_callback_def forEach_def visit_def push_error_def
  push_warning_def js_eq_def js_not_def js_lt_def join_def async_map_def iteratee_def

lemma run_ex:
  "validateOrder ex_catalog ex_req = (Next, ex_req\<lparr>validation := ex_report\<rparr>)"
  by (simp add: run_defs ex_catalog_def ex_req_def ex_report_def)

lemma run_twin:
  "validateOrder twin_catalog twin_req =
     (Next, twin_req\<lparr>validation :=
        \<lparr>errors = [\<lparr>articleId = ''B'', message = ''No se encuentra''\<rparr>,
                   \<lparr>articleId = ''X'', message = ''No se encuentra''\<rparr>,
                   \<lparr>articleId = ''A'',
                    message = ''Articulo inv'' @ [CHR 0xC3, CHR 0xA1] @ ''lido''\<rparr>],
         warnings = []\<rparr>\<rparr>)"
  by (simp add: run_defs twin_catalog_def twin_req_def)

section \<open>Properties of \<open>validateOrder\<close>\<close>

subsection \<open>An empty cart\<close>

text \<open>
  C8. For a cart with no line items the final callback ends by \<open>next()\<close> and the
  report has no errors and no warnings, whatever report the request carried before.
\<close>

theorem validateOrder_empty_cart:
  "articles (cart req) = [] \<Longrightarrow>
     validation (snd (validateOrder get req)) = \<lparr>errors = [], warnings = []\<rparr>
     \<and> validateOrder get req = (Next, req\<lparr>validation := \<lparr>errors = [], warnings = []\<rparr>\<rparr>)"
  by (simp add: validateOrder_def final_callback_def forEach_def async_map_def)

theorem validateOrder_empty_cart_witness:
  "articles (cart empty_req) = []
   \<and> validation empty_req \<noteq> \<lparr>errors = [], warnings = []\<rparr>
   \<and> validation (snd (validateOrder ex_catalog empty_req)) = \<lparr>errors = [], warnings = []\<rparr>
   \<and> fst (validateOrder ex_catalog empty_req) = Next"
proof -
  have h: "articles (cart empty_req) = []"
    by (simp add: empty_req_def)
  have d: "validation empty_req \<noteq> \<lparr>errors = [], warnings = []\<rparr>"
    by (simp add: empty_req_def)
  from validateOrder_empty_cart [OF h, of ex_catalog] h d show ?thesis by simp
qed

subsection \<open>Disabled articles\<close>



subsection \<open>Enabled articles\<close>



subsection \<open>Several snapshots with one id\<close>





subsection \<open>Every line in at most one sequence\<close>

lemma outcome_same_id:
  "ICartArticle.articleId b = ICartArticle.articleId c \<Longrightarrow>
     is_Error (outcome (joined os b)) = is_Error (outcome (joined os c))"
  by (simp add: outcome_def joined_def split: option.splits)

lemma line_lengths:
  "length (line_errors el) + length (line_warnings el) = (if outcome el \<noteq> Ok then 1 else 0)"
  by (cases "outcome el") (simp_all add: line_errors_def line_warnings_def)

lemma length_concat_pair:
  assumes "\<And>b. length (f b) + length (g b) = (if P b then 1 else 0)"
  shows "length (concat (map f ys)) + length (concat (map g ys)) = length (filter P ys)"
proof (induction ys)
  case Nil
  show ?case by simp
next
  case (Cons b ys)
  from assms [of b] Cons.IH show ?case by (simp split: if_splits)
qed

lemma errors_warnings_disjoint:
  assumes "e \<in> set (errors (validation (snd (validateOrder get req))))"
    and "w \<in> set (warnings (validation (snd (validateOrder get req))))"
  shows "CartValidationItem.articleId e \<noteq> CartValidationItem.articleId w"
proof
  let ?os = "objects (results_of get req)"
  assume same: "CartValidationItem.articleId e = CartValidationItem.articleId w"
  from assms(1) validateOrder_cases [of get req]
  obtain b where b: "e \<in> set (line_errors (joined ?os b))"
    by auto
  from assms(2) validateOrder_cases [of get req]
  obtain c where c: "w \<in> set (line_warnings (joined ?os c))"
    by auto
  from b c same have "ICartArticle.articleId b = ICartArticle.articleId c"
    by (simp add: line_errors_id line_warnings_id)
  then have "is_Error (outcome (joined ?os b)) = is_Error (outcome (joined ?os c))"
    by (rule outcome_same_id)
  with b c show False
    by (simp add: line_errors_set line_warnings_set)
qed

lemma thrown_report:
  assumes "fst (validateOrder get req) \<noteq> Next"
  shows "errors (validation (snd (validateOrder get req))) = []"
    and "warnings (validation (snd (validateOrder get req))) = []"
  using validateOrder_Thrown [OF assms] by simp_all

text \<open>
  C5. No id is carried both by an error and by a warning of the report. When the final
  callback ends by \<open>next()\<close>, the errors and the warnings that carry an id are
  together as many as the lines of the cart with that id whose outcome is not
  \<open>Ok\<close>: a line has at most one record, in one of the two sequences, and a line whose
  outcome is \<open>Ok\<close> has none. When it ends by an exception, the report is empty. In
  both cases the records that carry an id are at most as many as the lines with that
  id.
\<close>

theorem validateOrder_at_most_one:
  "(\<forall>e \<in> set (errors (validation (snd (validateOrder get req)))).
      \<forall>w \<in> set (warnings (validation (snd (validateOrder get req)))).
        CartValidationItem.articleId e \<noteq> CartValidationItem.articleId w)
   \<and> (if fst (validateOrder get req) = Next
       then length (items_with x (errors (validation (snd (validateOrder get req))))) +
            length (items_with x (warnings (validation (snd (validateOrder get req))))) =
            length (filter (\<lambda>b. outcome (joined (objects (results_of get req)) b) \<noteq> Ok)
                      (lines_with x (articles (cart req))))
       else errors (validation (snd (validateOrder get req))) = []
            \<and> warnings (validation (snd (validateOrder get req))) = [])
   \<and> length (items_with x (errors (validation (snd (validateOrder get req))))) +
       length (items_with x (warnings (validation (snd (validateOrder get req))))) \<le>
       length (lines_with x (articles (cart req)))"
proof (cases "fst (validateOrder get req) = Next")
  case True
  let ?os = "objects (results_of get req)"
  let ?ls = "lines_with x (articles (cart req))"
  have count: "length (items_with x (errors (validation (snd (validateOrder get req))))) +
       length (items_with x (warnings (validation (snd (validateOrder get req))))) =
       length (filter (\<lambda>b. outcome (joined ?os b) \<noteq> Ok) ?ls)"
    unfolding errors_with [OF True] warnings_with [OF True]
    by (rule length_concat_pair) (rule line_lengths)
  have "length (filter (\<lambda>b. outcome (joined ?os b) \<noteq> Ok) ?ls) \<le> length ?ls"
    by (rule length_filter_le)
  with count True errors_warnings_disjoint [of _ get req] show ?thesis
    by auto
next
  case False
  with thrown_report [OF False] show ?thesis
    by (simp add: items_with_def)
qed

theorem validateOrder_at_most_one_witness:
  "validation (snd (validateOrder ex_catalog ex_req)) = ex_report
   \<and> fst (validateOrder ex_catalog ex_req) = Next
   \<and> length (items_with ''A'' (errors ex_report)) + length (items_with ''A'' (warnings ex_report)) = 0
   \<and> length (items_with ''B'' (errors ex_report)) + length (items_with ''B'' (warnings ex_report)) = 1
   \<and> length (items_with ''C'' (errors ex_report)) + length (items_with ''C'' (warnings ex_report)) = 1
   \<and> outcome (joined (objects (results_of ex_catalog ex_req))
        \<lparr>ICartArticle.articleId = ''A'', quantity = 2\<rparr>) = Ok
   \<and> length (filter (\<lambda>b. outcome (joined (objects (results_of ex_catalog ex_req)) b) \<noteq> Ok)
                 (lines_with ''A'' (articles (cart ex_req)))) = 0
   \<and> length (filter (\<lambda>b. outcome (joined (objects (results_of ex_catalog ex_req)) b) \<noteq> Ok)
                 (lines_with ''B'' (articles (cart ex_req)))) = 1
   \<and> fst (validateOrder null_catalog spec_req) \<noteq> Next
   \<and> errors (validation (snd (validateOrder null_catalog spec_req))) = []
   \<and> warnings (validation (snd (validateOrder null_catalog spec_req))) = []"
proof -
  have rep: "validateOrder ex_catalog ex_req = (Next, ex_req\<lparr>validation := ex_report\<rparr>)"
    by (rule run_ex)
  have ok: "outcome (joined (objects (results_of ex_catalog ex_req))
              \<lparr>ICartArticle.articleId = ''A'', quantity = 2\<rparr>) = Ok"
    by (simp add: outcome_def joined_def results_of_def async_map_def iteratee_def
        ex_catalog_def ex_req_def)
  have thr: "fst (validateOrder null_catalog spec_req) \<noteq> Next"
    by (simp add: run_defs null_catalog_def spec_req_def)
  from validateOrder_at_most_one [of ex_catalog ex_req "''A''"]
    validateOrder_at_most_one [of ex_catalog ex_req "''B''"]
    validateOrder_at_most_one [of null_catalog spec_req "''B''"] rep ok thr
  show ?thesis
    by (simp add: ex_report_def items_with_def)
qed

subsection \<open>The order of the records\<close>

lemma line_errors_if:
  "line_errors el = (if is_Error (outcome el) then [un_Error (outcome el)] else [])"
  by (cases "outcome el") (simp_all add: line_errors_def)

lemma line_warnings_if:
  "line_warnings el = (if is_Warning (outcome el) then [un_Warning (outcome el)] else [])"
  by (cases "outcome el") (simp_all add: line_warnings_def)

lemma un_Error_id:
  "is_Error (outcome (joined os b)) \<Longrightarrow>
     CartValidationItem.articleId (un_Error (outcome (joined os b))) = ICartArticle.articleId b"
  by (rule line_errors_id) (simp add: line_errors_if)

lemma un_Warning_id:
  "is_Warning (outcome (joined os b)) \<Longrightarrow>
     CartValidationItem.articleId (un_Warning (outcome (joined os b))) = ICartArticle.articleId b"
  by (rule line_warnings_id) (simp add: line_warnings_if)

lemma error_ids:
  assumes "fst (validateOrder get req) = Next"
  shows "map CartValidationItem.articleId (errors (validation (snd (validateOrder get req)))) =
     map ICartArticle.articleId
       (filter (\<lambda>b. is_Error (outcome (joined (objects (results_of get req)) b)))
          (articles (cart req)))"
  by (simp add: validateOrder_Next [OF assms] line_errors_if concat_map_if un_Error_id)

lemma warning_ids:
  assumes "fst (validateOrder get req) = Next"
  shows "map CartValidationItem.articleId (warnings (validation (snd (validateOrder get req)))) =
     map ICartArticle.articleId
       (filter (\<lambda>b. is_Warning (outcome (joined (objects (results_of get req)) b)))
          (articles (cart req)))"
  by (simp add: validateOrder_Next [OF assms] line_warnings_if concat_map_if un_Warning_id)

text \<open>
  C6. When the final callback ends by \<open>next()\<close>, the ids of the errors are the ids
  of the cart lines whose outcome is an error, in the order of the cart, and the ids of
  the warnings are the ids of the cart lines whose outcome is a warning, in the order
  of the cart. When it ends by an exception, the report is empty. In both cases the
  ids of the errors and the ids of the warnings are subsequences of the ids of the cart:
  nothing is sorted or moved.
\<close>

theorem validateOrder_cart_order:
  "(if fst (validateOrder get req) = Next
    then map CartValidationItem.articleId (errors (validation (snd (validateOrder get req)))) =
           map ICartArticle.articleId
             (filter (\<lambda>b. is_Error (outcome (joined (objects (results_of get req)) b)))
                (articles (cart req)))
         \<and> map CartValidationItem.articleId (warnings (validation (snd (validateOrder get req)))) =
           map ICartArticle.articleId
             (filter (\<lambda>b. is_Warning (outcome (joined (objects (results_of get req)) b)))
                (articles (cart req)))
    else errors (validation (snd (validateOrder get req))) = []
         \<and> warnings (validation (snd (validateOrder get req))) = [])
   \<and> subseq (map CartValidationItem.articleId (errors (validation (snd (validateOrder get req)))))
        (map ICartArticle.articleId (articles (cart req)))
   \<and> subseq (map CartValidationItem.articleId (warnings (validation (snd (validateOrder get req)))))
        (map ICartArticle.articleId (articles (cart req)))"
proof (cases "fst (validateOrder get req) = Next")
  case True
  have "subseq (map CartValidationItem.articleId (errors (validation (snd (validateOrder get req)))))
          (map ICartArticle.articleId (articles (cart req)))"
    unfolding error_ids [OF True] by (intro subseq_map subseq_filter_left)
  moreover
  have "subseq (map CartValidationItem.articleId (warnings (validation (snd (validateOrder get req)))))
          (map ICartArticle.articleId (articles (cart req)))"
    unfolding warning_ids [OF True] by (intro subseq_map subseq_filter_left)
  ultimately show ?thesis
    using True error_ids [OF True] warning_ids [OF True] by simp
next
  case False
  with thrown_report [OF False] show ?thesis
    by simp
qed

theorem validateOrder_cart_order_witness:
  "map ICartArticle.articleId (articles (cart ex_req)) = [''A'', ''B'', ''C'', ''D'', ''E'']
   \<and> fst (validateOrder ex_catalog ex_req) = Next
   \<and> map CartValidationItem.articleId (errors (validation (snd (validateOrder ex_catalog ex_req)))) =
       [''B'', ''D'']
   \<and> map CartValidationItem.articleId (warnings (validation (snd (validateOrder ex_catalog ex_req)))) =
       [''C'']
   \<and> subseq [''B'', ''D''] [''A'', ''B'', ''C'', ''D'', ''E'']
   \<and> subseq [''C''] [''A'', ''B'', ''C'', ''D'', ''E'']"
proof -
  have ids: "map ICartArticle.articleId (articles (cart ex_req)) = [''A'', ''B'', ''C'', ''D'', ''E'']"
    by (simp add: ex_req_def)
  have nxt: "fst (validateOrder ex_catalog ex_req) = Next"
    by (simp add: run_ex)
  have es: "map ICartArticle.articleId
       (filter (\<lambda>b. is_Error (outcome (joined (objects (results_of ex_catalog ex_req)) b)))
          (articles (cart ex_req))) = [''B'', ''D'']"
    by (simp add: outcome_def joined_def results_of_def async_map_def iteratee_def
        ex_catalog_def ex_req_def)
  have ws: "map ICartArticle.articleId
       (filter (\<lambda>b. is_Warning (outcome (joined (objects (results_of ex_catalog ex_req)) b)))
          (articles (cart ex_req))) = [''C'']"
    by (simp add: outcome_def joined_def results_of_def async_map_def iteratee_def
        ex_catalog_def ex_req_def)
  from validateOrder_cart_order [of ex_catalog ex_req] nxt show ?thesis
    unfolding es ws ids by simp
qed

subsection \<open>Running the validation again\<close>

lemma results_of_cong:
  "cart req' = cart req \<Longrightarrow> token req' = token req \<Longrightarrow> results_of get req' = results_of get req"
  by (simp add: results_of_def async_map_def iteratee_def)

lemma validateOrder_frame:
  "cart (snd (validateOrder get req)) = cart req"
  "token (snd (validateOrder get req)) = token req"
  using validateOrder_cases [of get req] by auto

text \<open>
  C7. How the final callback ends and the report it leaves depend on the catalog, on the
  cart and on the token of the request only: two requests with the same cart and the
  same token get the same report from the same catalog, whatever report they carried
  before. In particular validating once more the request that \<open>validateOrder\<close>
  returns gives the same result.
\<close>

theorem validateOrder_idempotent:
  "(cart req' = cart req \<and> token req' = token req \<longrightarrow>
      validation (snd (validateOrder get req')) = validation (snd (validateOrder get req))
      \<and> fst (validateOrder get req') = fst (validateOrder get req))
   \<and> validateOrder get (snd (validateOrder get req)) = validateOrder get req"
proof -
  have same: "validation (snd (validateOrder get r')) = validation (snd (validateOrder get r))
      \<and> fst (validateOrder get r') = fst (validateOrder get r)"
    if "cart r' = cart r" and "token r' = token r" for r r' :: IValidationResult
  proof -
    from that have "results_of get r' = results_of get r"
      by (rule results_of_cong)
    with that(1) show ?thesis
      by (simp add: validateOrder_def final_callback_def results_of_def forEach_def foldl_visit
          Let_def split: sum.splits)
  qed
  let ?r = "snd (validateOrder get req)"
  have "validation (snd (validateOrder get ?r)) = validation ?r
      \<and> fst (validateOrder get ?r) = fst (validateOrder get req)"
    by (rule same) (rule validateOrder_frame)+
  moreover have "snd (validateOrder get ?r) = ?r\<lparr>validation := validation (snd (validateOrder get ?r))\<rparr>"
    using validateOrder_cases [of get ?r] by auto
  ultimately have "validateOrder get ?r = validateOrder get req"
    by (simp add: prod_eq_iff)
  with same [of req' req] show ?thesis by blast
qed

theorem validateOrder_idempotent_witness:
  "cart (ex_req\<lparr>validation := \<lparr>errors = [], warnings = []\<rparr>\<rparr>) = cart ex_req
   \<and> token (ex_req\<lparr>validation := \<lparr>errors = [], warnings = []\<rparr>\<rparr>) = token ex_req
   \<and> validation (ex_req\<lparr>validation := \<lparr>errors = [], warnings = []\<rparr>\<rparr>) \<noteq> validation ex_req
   \<and> validation (snd (validateOrder ex_catalog (ex_req\<lparr>validation := \<lparr>errors = [], warnings = []\<rparr>\<rparr>))) =
       validation (snd (validateOrder ex_catalog ex_req))
   \<and> validateOrder ex_catalog (snd (validateOrder ex_catalog ex_req)) = validateOrder ex_catalog ex_req
   \<and> validation (snd (validateOrder ex_catalog ex_req)) = ex_report"
proof -
  let ?r = "ex_req\<lparr>validation := \<lparr>errors = [], warnings = []\<rparr>\<rparr>"
  have h: "cart ?r = cart ex_req \<and> token ?r = token ex_req"
    by simp
  have d: "validation ?r \<noteq> validation ex_req"
    by (simp add: ex_req_def)
  have rep: "validation (snd (validateOrder ex_catalog ex_req)) = ex_report"
    by (simp add: run_ex)
  from validateOrder_idempotent [of ?r ex_req ex_catalog] h d rep show ?thesis
    by blast
qed

subsection \<open>What the validation leaves alone\<close>

text \<open>
  C10. The request that \<open>validateOrder\<close> leaves is the request it was called with,
  but for \<open>req.validation\<close>: the cart (its articles with their ids and quantities,
  its user id and its enabled flag) and the token are as before, however the final
  callback ends.
\<close>

theorem validateOrder_cart_unchanged:
  "snd (validateOrder get req) = req\<lparr>validation := validation (snd (validateOrder get req))\<rparr>
   \<and> cart (snd (validateOrder get req)) = cart req
   \<and> articles (cart (snd (validateOrder get req))) = articles (cart req)
   \<and> userId (cart (snd (validateOrder get req))) = userId (cart req)
   \<and> ICart.enabled (cart (snd (validateOrder get req))) = ICart.enabled (cart req)
   \<and> token (snd (validateOrder get req)) = token req"
  using validateOrder_cases [of get req] by auto

theorem validateOrder_cart_unchanged_witness:
  "cart (snd (validateOrder ex_catalog ex_req)) = cart ex_req
   \<and> articles (cart (snd (validateOrder ex_catalog ex_req))) =
       [\<lparr>ICartArticle.articleId = ''A'', quantity = 2\<rparr>,
        \<lparr>ICartArticle.articleId = ''B'', quantity = 1\<rparr>,
        \<lparr>ICartArticle.articleId = ''C'', quantity = 5\<rparr>,
        \<lparr>ICartArticle.articleId = ''D'', quantity = 3\<rparr>,
        \<lparr>ICartArticle.articleId = ''E'', quantity = 4\<rparr>]
   \<and> userId (cart (snd (validateOrder ex_catalog ex_req))) = ''u1''
   \<and> ICart.enabled (cart (snd (validateOrder ex_catalog ex_req))) = True
   \<and> validation (snd (validateOrder ex_catalog ex_req)) \<noteq> validation ex_req
   \<and> cart (snd (validateOrder null_catalog spec_req)) = cart spec_req"
proof -
  have rep: "validation (snd (validateOrder ex_catalog ex_req)) = ex_report"
    by (simp add: run_ex)
  have d: "ex_report \<noteq> validation ex_req"
    by (simp add: ex_report_def ex_req_def)
  from validateOrder_cart_unchanged [of ex_catalog ex_req]
    validateOrder_cart_unchanged [of null_catalog spec_req] rep d
  show ?thesis
    by (simp add: ex_req_def)
qed

subsection \<open>Failed lookups\<close>

text \<open>
  A rejected lookup is replaced by \<open>{ "_id": undefined }\<close>, which carries no id.
  When no lookup of the request is fulfilled with \<open>null\<close> and no answer carries the
  id of the line, the line gets the error \<open>No se encuentra\<close> and no warning.
\<close>

lemma rejected_lookup:
  assumes "a \<in> set (articles (cart req))"
    and nonull: "\<forall>b \<in> set (articles (cart req)).
           get (''/articles/'' @ ICartArticle.articleId b) (token req) \<noteq> Fulfilled None"
    and "get (''/articles/'' @ ICartArticle.articleId a) (token req) = Rejected e"
    and none: "\<forall>b \<in> set (articles (cart req)). \<forall>el.
           get (''/articles/'' @ ICartArticle.articleId b) (token req) = Fulfilled (Some el) \<longrightarrow>
           art_id el \<noteq> Some (ICartArticle.articleId a)"
  shows "iteratee get req a = Some \<lparr>art_id = None, stock = None, enabled = None\<rparr>"
    and "fst (validateOrder get req) = Next"
    and "filter (\<lambda>e. CartValidationItem.articleId e = ICartArticle.articleId a)
           (errors (validation (snd (validateOrder get req)))) =
         replicate
           (length (filter (\<lambda>b. ICartArticle.articleId b = ICartArticle.articleId a)
                      (articles (cart req))))
           \<lparr>CartValidationItem.articleId = ICartArticle.articleId a,
            message = ''No se encuentra''\<rparr>"
    and "filter (\<lambda>w. CartValidationItem.articleId w = ICartArticle.articleId a)
           (warnings (validation (snd (validateOrder get req)))) = []"
proof -
  show "iteratee get req a = Some \<lparr>art_id = None, stock = None, enabled = None\<rparr>"
    using assms(3) by (simp add: iteratee_def)
  show nxt: "fst (validateOrder get req) = Next"
    using nonull by (rule validateOrder_completes)
  have "List.find (\<lambda>element. art_id element = Some (ICartArticle.articleId a))
          (objects (results_of get req)) = None"
    using nonull none by (rule no_answer)
  then have nf: "result (joined (objects (results_of get req)) a) = None"
    by (simp add: joined_def)
  note r = report_not_found [OF nxt nf, unfolded items_with_def lines_with_def]
  show "filter (\<lambda>e. CartValidationItem.articleId e = ICartArticle.articleId a)
           (errors (validation (snd (validateOrder get req)))) =
         replicate
           (length (filter (\<lambda>b. ICartArticle.articleId b = ICartArticle.articleId a)
                      (articles (cart req))))
           \<lparr>CartValidationItem.articleId = ICartArticle.articleId a,
            message = ''No se encuentra''\<rparr>"
    by (rule r(1))
  show "filter (\<lambda>w. CartValidationItem.articleId w = ICartArticle.articleId a)
           (warnings (validation (snd (validateOrder get req)))) = []"
    by (rule r(2))
qed

text \<open>
  The lines are joined with the results by id and not by position: when the lookup of
  A is answered with a snapshot of B and the lookup of B is rejected, the line of B is
  joined with that snapshot and gets no error, and the line of A gets the error.
\<close>

lemma run_clash:
  "clash_catalog ''/articles/B'' (token clash_req) = Rejected ()
   \<and> validateOrder clash_catalog clash_req =
       (Next, clash_req\<lparr>validation :=
          \<lparr>errors = [\<lparr>CartValidationItem.articleId = ''A'', message = ''No se encuentra''\<rparr>],
           warnings = []\<rparr>\<rparr>)"
  by (simp add: run_defs clash_catalog_def clash_req_def)

lemma results_find_Inr:
  "results_find rs x = Inr r \<Longrightarrow>
     (case r of None \<Rightarrow> None \<notin> set rs
      | Some el \<Rightarrow> Some el \<in> set rs \<and> art_id el = Some x)"
proof (induction rs x rule: results_find.induct)
  case (1 x)
  then show ?case by auto
next
  case (2 results x)
  then show ?case by simp
next
  case (3 element results x)
  then show ?case
    by (cases "js_eq (art_id element) x")
      (auto simp: js_eq_def split: option.splits)
qed

lemma array_map_throws:
  "x \<in> set xs \<Longrightarrow> f x = Inl err \<Longrightarrow> \<exists>err'. array_map f xs = Inl err'"
proof (induction xs)
  case Nil
  then show ?case by simp
next
  case (Cons y xs)
  then show ?case
    by (cases "f y"; cases "array_map f xs") auto
qed

text \<open>
  C1, the defect. A lookup that is fulfilled with the result \<open>null\<close> is not replaced
  by anything. When no answer carries the id of its line, \<open>results.find\<close> reaches
  the \<open>null\<close> and throws while the lines are joined: the final callback ends by the
  exception, \<open>next()\<close> is not called, and the request is left with the empty report,
  with no record for any line.
\<close>

theorem validateOrder_null_result:
  assumes "a \<in> set (articles (cart req))"
    and "get (''/articles/'' @ ICartArticle.articleId a) (token req) = Fulfilled None"
    and "\<forall>b \<in> set (articles (cart req)). \<forall>el.
           get (''/articles/'' @ ICartArticle.articleId b) (token req) = Fulfilled (Some el) \<longrightarrow>
           art_id el \<noteq> Some (ICartArticle.articleId a)"
  shows "validateOrder get req =
           (Thrown TypeError, req\<lparr>validation := \<lparr>errors = [], warnings = []\<rparr>\<rparr>)"
proof -
  let ?rs = "results_of get req"
  let ?x = "ICartArticle.articleId a"
  from assms(1,2) have null: "None \<in> set ?rs"
    by (force simp: results_of_def async_map_def iteratee_def)
  have nomatch: "art_id el \<noteq> Some ?x" if "Some el \<in> set ?rs" for el
  proof -
    from that obtain b where b: "b \<in> set (articles (cart req))"
      and el: "iteratee get req b = Some el"
      by (auto simp: results_of_def async_map_def)
    show ?thesis
    proof (cases "get (''/articles/'' @ ICartArticle.articleId b) (token req)")
      case (Fulfilled r)
      with el have "r = Some el" by (simp add: iteratee_def)
      with Fulfilled assms(3) b show ?thesis by simp
    next
      case (Rejected e)
      with el show ?thesis by (auto simp: iteratee_def)
    qed
  qed
  have "results_find ?rs ?x = Inl TypeError"
  proof (cases "results_find ?rs ?x")
    case (Inl err)
    then show ?thesis by (cases err) simp
  next
    case (Inr r)
    from results_find_Inr [OF Inr] null nomatch show ?thesis
      by (cases r) auto
  qed
  then have "join ?rs a = Inl TypeError"
    by (simp add: join_def)
  with assms(1) have "\<exists>err'. array_map (join ?rs) (articles (cart req)) = Inl err'"
    by (rule array_map_throws)
  then have "fst (validateOrder get req) \<noteq> Next"
    by (auto simp: validateOrder_def final_callback_def results_of_def)
  then show ?thesis
    by (rule validateOrder_Thrown)
qed

theorem validateOrder_null_result_witness:
  "\<lparr>ICartArticle.articleId = ''B'', quantity = 1\<rparr> \<in> set (articles (cart spec_req))
   \<and> null_catalog ''/articles/B'' (token spec_req) = Fulfilled None
   \<and> validateOrder null_catalog spec_req =
       (Thrown TypeError, spec_req\<lparr>validation := \<lparr>errors = [], warnings = []\<rparr>\<rparr>)
   \<and> ex_catalog ''/articles/B'' (token spec_req) = Rejected ()
   \<and> validateOrder ex_catalog spec_req =
       (Next, spec_req\<lparr>validation :=
          \<lparr>errors = [\<lparr>CartValidationItem.articleId = ''B'', message = ''No se encuentra''\<rparr>],
           warnings = [\<lparr>CartValidationItem.articleId = ''C'',
                        message = ''Insuficiente stock''\<rparr>]\<rparr>\<rparr>)"
proof -
  let ?a = "\<lparr>ICartArticle.articleId = ''B'', quantity = 1\<rparr>"
  have h1: "?a \<in> set (articles (cart spec_req))"
    by (simp add: spec_req_def)
  have h2: "null_catalog (''/articles/'' @ ICartArticle.articleId ?a) (token spec_req) = Fulfilled None"
    by (simp add: null_catalog_def)
  have h3: "\<forall>b \<in> set (articles (cart spec_req)). \<forall>el.
           null_catalog (''/articles/'' @ ICartArticle.articleId b) (token spec_req) =
             Fulfilled (Some el) \<longrightarrow>
           art_id el \<noteq> Some (ICartArticle.articleId ?a)"
    by (auto simp: null_catalog_def spec_req_def)
  have rej: "ex_catalog ''/articles/B'' (token spec_req) = Rejected ()"
    by (simp add: ex_catalog_def)
  have sib: "validateOrder ex_catalog spec_req =
       (Next, spec_req\<lparr>validation :=
          \<lparr>errors = [\<lparr>CartValidationItem.articleId = ''B'', message = ''No se encuentra''\<rparr>],
           warnings = [\<lparr>CartValidationItem.articleId = ''C'',
                        message = ''Insuficiente stock''\<rparr>]\<rparr>\<rparr>)"
    by (simp add: run_defs ex_catalog_def spec_req_def)
  from validateOrder_null_result [of ?a spec_req null_catalog, OF h1 h2 h3] h1 h2 rej sib
  show ?thesis
    by simp
qed

text \<open>
  C2, the defect. The cart has the line of B alone and the catalog answers its lookup
  with 404, so that the promise is fulfilled with the result \<open>null\<close>: the final
  callback ends by the exception of \<open>results.find\<close> and the report has no error for
  B. When the same lookup is rejected instead, the report has the error
  \<open>No se encuentra\<close> for B.
\<close>

theorem validateOrder_not_found_null:
  "articles (cart single_req) = [\<lparr>ICartArticle.articleId = ''B'', quantity = 1\<rparr>]
   \<and> null_catalog ''/articles/B'' (token single_req) = Fulfilled None
   \<and> fst (validateOrder null_catalog single_req) = Thrown TypeError
   \<and> errors (validation (snd (validateOrder null_catalog single_req))) = []
   \<and> warnings (validation (snd (validateOrder null_catalog single_req))) = []
   \<and> ex_catalog ''/articles/B'' (token single_req) = Rejected ()
   \<and> validateOrder ex_catalog single_req =
       (Next, single_req\<lparr>validation :=
          \<lparr>errors = [\<lparr>CartValidationItem.articleId = ''B'', message = ''No se encuentra''\<rparr>],
           warnings = []\<rparr>\<rparr>)"
  by (simp add: run_defs null_catalog_def ex_catalog_def single_req_def)

end
